theory Spec2Isabelle
  imports
    Main
    "HOL-Library.Word"
    "HOL-Library.Char_ord"
    "HOL-Library.List_Lexorder"
    "HOL-Library.Sublist"
    "HOL-Library.Multiset"
begin

section \<open>The file processor of \<open>process.py\<close>\<close>

text \<open>
  The program scans the direct children of an input folder, validates the folder
  (\<open>FileProcessor.validate_inputs\<close>), classifies every regular file as text or binary
  by trying to decode it (\<open>FileProcessor.count_lines\<close>), folds sizes and line counts
  into totals (\<open>FileProcessor.process_files\<close>), writes the summary
  (\<open>FileProcessor.write_summary\<close>) and maps the three ways a run can end to an exit
  status (\<open>FileProcessor.run\<close>).

  The filesystem is a snapshot, taken when \<open>validate_inputs\<close> starts: what
  \<open>iterdir\<close>, \<open>is_file\<close>, \<open>is_dir\<close>, \<open>os.access\<close>, \<open>stat\<close> and \<open>open\<close> answer
  is fixed from there to the end of the run. \<open>pathlib\<close> is that of Python 3.8 to
  3.12: \<open>exists\<close>, \<open>is_file\<close> and \<open>is_dir\<close> answer \<open>False\<close> for a missing path and
  raise the \<open>PermissionError\<close> of a \<open>stat\<close> that is refused. Paths are
  compared as on POSIX, by the code points of their names. The fields \<open>size_kb\<close>,
  \<open>total_size_kb\<close> and \<open>total_size_mb\<close> are floating-point roundings of the byte
  sizes and are left out of the records; log lines are left out except where a
  statement is about them.
\<close>

subsection \<open>Exceptions\<close>

datatype py_exc =
    ValidationError string
  | UnicodeDecodeError
  | OSError
  | RuntimeError string

subsection \<open>Bytes, code points and the three codecs\<close>

type_synonym byte = "8 word"

text \<open>A decoded text is its list of Unicode code points.\<close>

type_synonym unicode = "nat list"

datatype encoding = UTF8 | Latin1 | CP1252

definition is_cont :: "byte \<Rightarrow> bool" where
  "is_cont b = (0x80 \<le> b \<and> b \<le> 0xBF)"

definition cont_val :: "byte \<Rightarrow> nat" where
  "cont_val b = unat b - 0x80"

text \<open>
  One step of the strict UTF-8 decoder of Python (\<open>encoding='utf-8'\<close>, errors
  \<open>strict\<close>): the code point of the first well-formed sequence and the bytes after
  it, or \<open>None\<close> where the decoder raises \<open>UnicodeDecodeError\<close>. Overlong forms,
  surrogates and code points above \<open>0x10FFFF\<close> are rejected through the ranges of the
  second byte.
\<close>

fun utf8_step :: "byte list \<Rightarrow> (nat \<times> byte list) option" where
  "utf8_step [] = None"
| "utf8_step (b # bs) =
     (if b < 0x80 then Some (unat b, bs)
      else if 0xC2 \<le> b \<and> b \<le> 0xDF then
        (case bs of
           c1 # r \<Rightarrow>
             if is_cont c1 then Some ((unat b - 0xC0) * 64 + cont_val c1, r) else None
         | _ \<Rightarrow> None)
      else if 0xE0 \<le> b \<and> b \<le> 0xEF then
        (case bs of
           c1 # c2 # r \<Rightarrow>
             if is_cont c1 \<and> is_cont c2
                \<and> (b = 0xE0 \<longrightarrow> 0xA0 \<le> c1) \<and> (b = 0xED \<longrightarrow> c1 \<le> 0x9F)
             then Some ((unat b - 0xE0) * 4096 + cont_val c1 * 64 + cont_val c2, r)
             else None
         | _ \<Rightarrow> None)
      else if 0xF0 \<le> b \<and> b \<le> 0xF4 then
        (case bs of
           c1 # c2 # c3 # r \<Rightarrow>
             if is_cont c1 \<and> is_cont c2 \<and> is_cont c3
                \<and> (b = 0xF0 \<longrightarrow> 0x90 \<le> c1) \<and> (b = 0xF4 \<longrightarrow> c1 \<le> 0x8F)
             then Some ((unat b - 0xF0) * 262144 + cont_val c1 * 4096
                        + cont_val c2 * 64 + cont_val c3, r)
             else None
         | _ \<Rightarrow> None)
      else None)"

lemma utf8_step_shorter: "utf8_step bs = Some (cp, r) \<Longrightarrow> length r < length bs"
  by (cases bs) (auto split: if_splits list.splits)

function decode_utf8 :: "byte list \<Rightarrow> unicode option" where
  "decode_utf8 bs =
     (if bs = [] then Some []
      else (case utf8_step bs of
              None \<Rightarrow> None
            | Some (cp, r) \<Rightarrow> map_option ((#) cp) (decode_utf8 r)))"
  by pat_completeness auto
termination
  by (relation "measure length") (auto dest: utf8_step_shorter)

declare decode_utf8.simps [simp del]

text \<open>Latin-1 maps every byte to the code point of the same number.\<close>

definition decode_latin1 :: "byte list \<Rightarrow> unicode option" where
  "decode_latin1 bs = Some (map unat bs)"

text \<open>
  Code page 1252 as Python's codec has it: the bytes \<open>0x81\<close>, \<open>0x8D\<close>, \<open>0x8F\<close>,
  \<open>0x90\<close> and \<open>0x9D\<close> are undefined, the other bytes of \<open>0x80..0x9F\<close> have their own
  code points, and every other byte is the code point of the same number.
\<close>

definition cp1252_table :: "(nat \<times> nat) list" where
  "cp1252_table =
     [(0x80, 0x20AC), (0x82, 0x201A), (0x83, 0x0192), (0x84, 0x201E), (0x85, 0x2026),
      (0x86, 0x2020), (0x87, 0x2021), (0x88, 0x02C6), (0x89, 0x2030), (0x8A, 0x0160),
      (0x8B, 0x2039), (0x8C, 0x0152), (0x8E, 0x017D), (0x91, 0x2018), (0x92, 0x2019),
      (0x93, 0x201C), (0x94, 0x201D), (0x95, 0x2022), (0x96, 0x2013), (0x97, 0x2014),
      (0x98, 0x02DC), (0x99, 0x2122), (0x9A, 0x0161), (0x9B, 0x203A), (0x9C, 0x0153),
      (0x9E, 0x017E), (0x9F, 0x0178)]"

definition cp1252_char :: "byte \<Rightarrow> nat option" where
  "cp1252_char b =
     (if b < 0x80 \<or> 0xA0 \<le> b then Some (unat b) else map_of cp1252_table (unat b))"

fun decode_cp1252 :: "byte list \<Rightarrow> unicode option" where
  "decode_cp1252 [] = Some []"
| "decode_cp1252 (b # bs) =
     (case cp1252_char b of
        None \<Rightarrow> None
      | Some cp \<Rightarrow> map_option ((#) cp) (decode_cp1252 bs))"

fun decode :: "encoding \<Rightarrow> byte list \<Rightarrow> unicode option" where
  "decode UTF8 bs = decode_utf8 bs"
| "decode Latin1 bs = decode_latin1 bs"
| "decode CP1252 bs = decode_cp1252 bs"

subsection \<open>Counting the lines of a text stream\<close>

text \<open>
  A file opened in text mode with the default \<open>newline=None\<close> translates \<open>\r\n\<close> and
  a lone \<open>\r\<close> to \<open>\n\<close>; iterating it yields one line per \<open>\n\<close> and one more for
  a last line that has no terminator. \<open>sum(1 for _ in f)\<close> is the number of lines
  yielded.
\<close>

fun translate_newlines :: "unicode \<Rightarrow> unicode" where
  "translate_newlines [] = []"
| "translate_newlines [c] = (if c = 13 then [10] else [c])"
| "translate_newlines (c # d # cs) =
     (if c = 13 \<and> d = 10 then 10 # translate_newlines cs
      else if c = 13 then 10 # translate_newlines (d # cs)
      else c # translate_newlines (d # cs))"

fun lines_yielded :: "bool \<Rightarrow> unicode \<Rightarrow> nat" where
  "lines_yielded pending [] = (if pending then 1 else 0)"
| "lines_yielded pending (c # cs) =
     (if c = 10 then Suc (lines_yielded False cs) else lines_yielded True cs)"

definition sum_lines :: "unicode \<Rightarrow> nat" where
  "sum_lines t = lines_yielded False (translate_newlines t)"

subsection \<open>The filesystem snapshot\<close>

text \<open>
  A directory entry is a regular file, a directory, something else (a socket, a
  dangling link), or a path that \<open>stat\<close> refuses with \<open>EACCES\<close> (a link into a
  directory that the process may not search). A file has the answer of
  \<open>os.access(f, os.R_OK)\<close>, its \<open>st_size\<close>, its formatted \<open>st_mtime\<close>, and its bytes,
  \<open>None\<close> when \<open>open\<close> or \<open>read\<close> raises an \<open>OSError\<close>. A directory has the answer
  of \<open>os.access(d, os.R_OK)\<close>, which is its read permission and lets \<open>iterdir\<close> list
  it, its search permission, without which \<open>stat\<close> refuses every entry of it, and its
  entries in the order \<open>iterdir\<close> yields them.
\<close>

datatype node =
    File (readable: bool) (st_size: nat) (st_mtime: string) (content: "byte list option")
  | Dir (dir_readable: bool) (dir_searchable: bool) (entries: "(string \<times> node) list")
  | Other
  | Denied

type_synonym path = "string \<times> node"

text \<open>The kind of a path whose \<open>stat\<close> succeeds.\<close>

fun is_file :: "path \<Rightarrow> bool" where
  "is_file (n, File r s m c) = True"
| "is_file (n, Dir r x es) = False"
| "is_file (n, Other) = False"
| "is_file (n, Denied) = False"

fun is_dir :: "path \<Rightarrow> bool" where
  "is_dir (n, Dir r x es) = True"
| "is_dir (n, File r s m c) = False"
| "is_dir (n, Other) = False"
| "is_dir (n, Denied) = False"

text \<open>
  \<open>item.is_file()\<close> and \<open>item.is_dir()\<close> for an entry of a directory whose search
  permission is \<open>x\<close>: the \<open>PermissionError\<close> of \<open>stat\<close> leaves them, when the
  directory may not be searched or the entry itself is refused.
\<close>

definition statable :: "bool \<Rightarrow> path \<Rightarrow> bool" where
  "statable x item = (x \<and> snd item \<noteq> Denied)"

definition item_is_file :: "bool \<Rightarrow> path \<Rightarrow> py_exc + bool" where
  "item_is_file x item = (if statable x item then Inr (is_file item) else Inl OSError)"

definition item_is_dir :: "bool \<Rightarrow> path \<Rightarrow> py_exc + bool" where
  "item_is_dir x item = (if statable x item then Inr (is_dir item) else Inl OSError)"

text \<open>
  The list comprehension \<open>[item for item in all_items if cond(item)]\<close>: the first
  exception of the condition ends it.
\<close>

fun comprehension :: "(path \<Rightarrow> py_exc + bool) \<Rightarrow> path list \<Rightarrow> py_exc + path list" where
  "comprehension cond [] = Inr []"
| "comprehension cond (item # items) =
     (case cond item of
        Inl e \<Rightarrow> Inl e
      | Inr b \<Rightarrow>
          (case comprehension cond items of
             Inl e \<Rightarrow> Inl e
           | Inr r \<Rightarrow> Inr (if b then item # r else r)))"

text \<open>\<open>os.access(path, os.R_OK)\<close>.\<close>

fun access_R_OK :: "path \<Rightarrow> bool" where
  "access_R_OK (n, File r s m c) = r"
| "access_R_OK (n, Dir r x es) = r"
| "access_R_OK (n, Other) = False"
| "access_R_OK (n, Denied) = False"

text \<open>
  \<open>open(file_path, 'r', encoding=...)\<close> followed by reading to the end: the bytes, or
  \<open>None\<close> for an \<open>OSError\<close> (also what opening a directory raises).
\<close>

fun read_bytes :: "path \<Rightarrow> byte list option" where
  "read_bytes (n, File r s m c) = c"
| "read_bytes (n, Dir r x es) = None"
| "read_bytes (n, Other) = None"
| "read_bytes (n, Denied) = None"

subsection \<open>\<open>FileProcessor.count_lines\<close>\<close>

text \<open>
  The body of the inner \<open>try\<close>: open with one encoding and count. The decoder raises
  \<open>UnicodeDecodeError\<close> on the first malformed sequence, wherever it is in the file.
\<close>

definition open_and_count :: "encoding \<Rightarrow> path \<Rightarrow> py_exc + nat" where
  "open_and_count enc file_path =
     (case read_bytes file_path of
        None \<Rightarrow> Inl OSError
      | Some bs \<Rightarrow>
          (case decode enc bs of
             None \<Rightarrow> Inl UnicodeDecodeError
           | Some t \<Rightarrow> Inr (sum_lines t)))"

text \<open>
  The \<open>for encoding in [...]\<close> loop: \<open>Inr (Some n)\<close> is the \<open>return\<close> inside the
  loop, \<open>Inr None\<close> the \<open>return None\<close> after it, and \<open>Inl e\<close> an exception that
  \<open>except UnicodeDecodeError\<close> does not catch.
\<close>

fun try_encodings :: "encoding list \<Rightarrow> path \<Rightarrow> py_exc + nat option" where
  "try_encodings [] file_path = Inr None"
| "try_encodings (enc # encs) file_path =
     (case open_and_count enc file_path of
        Inr n \<Rightarrow> Inr (Some n)
      | Inl UnicodeDecodeError \<Rightarrow> try_encodings encs file_path
      | Inl e \<Rightarrow> Inl e)"

definition encodings :: "encoding list" where
  "encodings = [UTF8, Latin1, CP1252]"

text \<open>The outer \<open>try\<close>: every other exception is logged and becomes \<open>None\<close>.\<close>

definition count_lines :: "path \<Rightarrow> nat option" where
  "count_lines file_path =
     (case try_encodings encodings file_path of
        Inl e \<Rightarrow> None
      | Inr r \<Rightarrow> r)"

subsection \<open>Formatting\<close>

text \<open>\<open>str(n)\<close> of a natural number, \<open>sep.join(parts)\<close>, and \<open>parent / name\<close>.\<close>

definition digit_char :: "nat \<Rightarrow> char" where
  "digit_char d = ''0123456789'' ! d"

function str_nat :: "nat \<Rightarrow> string" where
  "str_nat n = (if n < 10 then [digit_char n] else str_nat (n div 10) @ [digit_char (n mod 10)])"
  by pat_completeness auto
termination
  by (relation "measure id") auto

declare str_nat.simps [simp del]

fun join :: "string \<Rightarrow> string list \<Rightarrow> string" where
  "join sep [] = []"
| "join sep [x] = x"
| "join sep (x # y # ys) = x @ sep @ join sep (y # ys)"

definition joinpath :: "string \<Rightarrow> string \<Rightarrow> string" where
  "joinpath parent n = (if parent = ''/'' then parent @ n else parent @ ''/'' @ n)"

subsection \<open>The processor and its configuration\<close>

text \<open>
  \<open>input_folder\<close> and \<open>output_folder\<close> are the absolute paths as text;
  \<open>input_node\<close> is what the filesystem has at the input path, \<open>None\<close> when nothing
  is there and \<open>Denied\<close> when \<open>stat\<close> on the path is refused. \<open>logging_fails\<close>
  says that \<open>setup_logging\<close> raises (the output folder or the log file cannot be
  created), \<open>write_failure\<close> is the message of the exception that opening or dumping
  \<open>summary.json\<close> raises, and \<open>now\<close> is the formatted \<open>datetime.now()\<close> of the
  summary.
\<close>

record processor =
  input_folder :: string
  input_node :: "node option"
  output_folder :: string
  logging_fails :: bool
  write_failure :: "string option"
  now :: string

definition MIN_FILES_REQUIRED :: nat where
  "MIN_FILES_REQUIRED = 1"

text \<open>
  \<open>Path.iterdir\<close> on a node: the entries of a readable directory, an \<open>OSError\<close>
  otherwise. \<open>searchable\<close> is the search permission of a directory.
\<close>

fun iterdir :: "node \<Rightarrow> py_exc + path list" where
  "iterdir (Dir r x es) = (if r then Inr es else Inl OSError)"
| "iterdir (File r s m c) = Inl OSError"
| "iterdir Other = Inl OSError"
| "iterdir Denied = Inl OSError"

fun searchable :: "node \<Rightarrow> bool" where
  "searchable (Dir r x es) = x"
| "searchable (File r s m c) = False"
| "searchable Other = False"
| "searchable Denied = False"

subsection \<open>\<open>FileProcessor.validate_inputs\<close>\<close>

text \<open>The list \<open>error_parts\<close> of check 4, for the files and folders found.\<close>

definition error_parts :: "string \<Rightarrow> path list \<Rightarrow> path list \<Rightarrow> path list \<Rightarrow> string list" where
  "error_parts root all_items files folders =
     [''Input folder must contain at least '' @ str_nat MIN_FILES_REQUIRED @ '' file(s).'',
      ''Found: '' @ str_nat (length files) @ '' file(s)'']
     @ (if folders \<noteq> [] then
          (let folder_names =
                 map fst (take 5 folders)
                 @ (if length folders > 5
                    then [''... and '' @ str_nat (length folders - 5) @ '' more'']
                    else [])
           in [''Found '' @ str_nat (length folders) @ '' subfolder(s): ''
                 @ join '', '' folder_names,
               CHR 0x0A # ''Note: The system only processes files in the root input folder.'',
               ''Files inside subfolders are NOT processed.'',
               CHR 0x0A # ''Suggestion: Move files from subfolders to the input folder root,'',
               ''or run the script directly on the subfolder: python process.py -i ''
                 @ [CHR 0x22] @ joinpath root (fst (hd folders)) @ [CHR 0x22]])
        else if length all_items = 0 then [''The folder is completely empty.'']
        else [])"

text \<open>
  \<open>exists()\<close> raises when \<open>stat\<close> on the input path is refused. The two list
  comprehensions of check 4 call \<open>is_file\<close> and \<open>is_dir\<close> on every entry, the first
  of them on all entries before the second starts. Check 5 is reached with a file
  found, so in a directory that may be searched.
\<close>

definition validate_inputs :: "processor \<Rightarrow> py_exc + unit" where
  "validate_inputs p =
     (case input_node p of
        None \<Rightarrow> Inl (ValidationError (''Input folder not found: '' @ input_folder p))
      | Some nd \<Rightarrow>
          if nd = Denied then Inl OSError
          else if \<not> is_dir (input_folder p, nd) then
            Inl (ValidationError (''Path is not a directory: '' @ input_folder p))
          else if \<not> access_R_OK (input_folder p, nd) then
            Inl (ValidationError (''Cannot read folder: '' @ input_folder p))
          else
            (case iterdir nd of
               Inl e \<Rightarrow> Inl e
             | Inr all_items \<Rightarrow>
            (case comprehension (item_is_file (searchable nd)) all_items of
               Inl e \<Rightarrow> Inl e
             | Inr fs \<Rightarrow>
            (case comprehension (item_is_dir (searchable nd)) all_items of
               Inl e \<Rightarrow> Inl e
             | Inr folders \<Rightarrow>
                 (let files = fs
                  in if length files < MIN_FILES_REQUIRED then
                       Inl (ValidationError
                              (join [CHR 0x0A]
                                 (error_parts (input_folder p) all_items files folders)))
                     else
                       (let unreadable = map fst (filter (\<lambda>f. \<not> access_R_OK f) files)
                        in if unreadable \<noteq> [] then
                             Inl (ValidationError
                                    (''Cannot read files: '' @ join '', '' unreadable))
                           else Inr ()))))))"

subsection \<open>\<open>FileProcessor.process_files\<close>\<close>

record file_info =
  name :: string
  size_bytes :: nat
  file_type :: string
  line_count :: "nat option"
  modified :: string

record info =
  timestamp :: string
  info_input_folder :: string
  info_output_folder :: string

record stats =
  total_files :: nat
  text_files :: nat
  binary_files :: nat
  total_size_bytes :: nat
  total_lines :: nat

record summary =
  processing_info :: info
  statistics :: stats
  files :: "file_info list"

text \<open>
  The local variables of the loop, and the progress lines \<open>[idx/len] name\<close> that it
  logs.
\<close>

record loop_vars =
  v_file_stats :: "file_info list"
  v_total_size :: nat
  v_total_lines :: nat
  v_text_files :: nat
  v_binary_files :: nat
  v_progress :: "string list"

definition progress_line :: "nat \<Rightarrow> nat \<Rightarrow> string \<Rightarrow> string" where
  "progress_line idx n nm = ''  ['' @ str_nat idx @ ''/'' @ str_nat n @ ''] '' @ nm"

text \<open>
  One pass of the loop body for the file \<open>file_path\<close> at index \<open>idx\<close>. The list
  iterated holds regular files only, where \<open>stat\<close> gives \<open>st_size\<close> and \<open>st_mtime\<close>.
\<close>

definition process_one :: "nat \<Rightarrow> nat \<Rightarrow> path \<Rightarrow> loop_vars \<Rightarrow> loop_vars" where
  "process_one idx n file_path v =
     (let file_size = st_size (snd file_path);
          lc = count_lines file_path;
          v1 = v\<lparr>v_progress := v_progress v @ [progress_line idx n (fst file_path)],
                 v_total_size := v_total_size v + file_size\<rparr>;
          v2 = (case lc of
                  Some k \<Rightarrow> v1\<lparr>v_total_lines := v_total_lines v1 + k,
                                v_text_files := v_text_files v1 + 1\<rparr>
                | None \<Rightarrow> v1\<lparr>v_binary_files := v_binary_files v1 + 1\<rparr>);
          file_info = \<lparr>name = fst file_path,
                       size_bytes = file_size,
                       file_type = (if lc \<noteq> None then ''text'' else ''binary''),
                       line_count = lc,
                       modified = st_mtime (snd file_path)\<rparr>
      in v2\<lparr>v_file_stats := v_file_stats v2 @ [file_info]\<rparr>)"

text \<open>\<open>for idx, file_path in enumerate(files, 1)\<close>, from index \<open>idx\<close> on.\<close>

fun process_loop :: "nat \<Rightarrow> nat \<Rightarrow> path list \<Rightarrow> loop_vars \<Rightarrow> loop_vars" where
  "process_loop idx n [] v = v"
| "process_loop idx n (file_path # rest) v =
     process_loop (Suc idx) n rest (process_one idx n file_path v)"

definition initial_vars :: loop_vars where
  "initial_vars =
     \<lparr>v_file_stats = [], v_total_size = 0, v_total_lines = 0, v_text_files = 0,
      v_binary_files = 0, v_progress = []\<rparr>"

text \<open>
  \<open>sorted\<close> compares sibling paths by their names. The function returns the summary
  with the progress lines logged. The list comprehension calls \<open>is_file\<close> on every
  entry; the loop is reached with the entries examined, where \<open>stat\<close> on a file
  found succeeds.
\<close>

definition process_files :: "processor \<Rightarrow> py_exc + (summary \<times> string list)" where
  "process_files p =
     (case input_node p of
        None \<Rightarrow> Inl OSError
      | Some nd \<Rightarrow>
          (case iterdir nd of
             Inl e \<Rightarrow> Inl e
           | Inr all_items \<Rightarrow>
          (case comprehension (item_is_file (searchable nd)) all_items of
             Inl e \<Rightarrow> Inl e
           | Inr fs \<Rightarrow>
               (let files = sort_key fst fs;
                    v = process_loop 1 (length files) files initial_vars
                in Inr (\<lparr>processing_info =
                            \<lparr>timestamp = now p,
                             info_input_folder = input_folder p,
                             info_output_folder = output_folder p\<rparr>,
                          statistics =
                            \<lparr>total_files = length files,
                             text_files = v_text_files v,
                             binary_files = v_binary_files v,
                             total_size_bytes = v_total_size v,
                             total_lines = v_total_lines v\<rparr>,
                          files = v_file_stats v\<rparr>,
                        v_progress v)))))"

subsection \<open>\<open>FileProcessor.write_summary\<close>, \<open>setup_logging\<close> and \<open>run\<close>\<close>

definition setup_logging :: "processor \<Rightarrow> py_exc + unit" where
  "setup_logging p = (if logging_fails p then Inl OSError else Inr ())"

text \<open>The result is the content of \<open>summary.json\<close> after the call.\<close>

definition write_summary :: "processor \<Rightarrow> summary \<Rightarrow> py_exc + summary" where
  "write_summary p s =
     (case write_failure p of
        Some e \<Rightarrow> Inl (RuntimeError (''Failed to write summary: '' @ e))
      | None \<Rightarrow> Inr s)"

text \<open>
  What a run leaves behind: the exit status returned, the exception that an
  \<open>except\<close> clause of \<open>run\<close> caught, the summary that \<open>process_files\<close> built (with
  its file records) and the summary written to \<open>summary.json\<close>.
\<close>

record outcome =
  exit_code :: int
  caught :: "py_exc option"
  built :: "summary option"
  written :: "summary option"

text \<open>\<open>except ValidationError\<close> returns 1, \<open>except Exception\<close> returns 2.\<close>

fun handler :: "py_exc \<Rightarrow> int" where
  "handler (ValidationError m) = 1"
| "handler e = 2"

definition run :: "processor \<Rightarrow> outcome" where
  "run p =
     (case setup_logging p of
        Inl e \<Rightarrow> \<lparr>exit_code = handler e, caught = Some e, built = None, written = None\<rparr>
      | Inr u \<Rightarrow>
     (case validate_inputs p of
        Inl e \<Rightarrow> \<lparr>exit_code = handler e, caught = Some e, built = None, written = None\<rparr>
      | Inr u \<Rightarrow>
     (case process_files p of
        Inl e \<Rightarrow> \<lparr>exit_code = handler e, caught = Some e, built = None, written = None\<rparr>
      | Inr (s, lg) \<Rightarrow>
     (case write_summary p s of
        Inl e \<Rightarrow> \<lparr>exit_code = handler e, caught = Some e, built = Some s, written = None\<rparr>
      | Inr w \<Rightarrow> \<lparr>exit_code = 0, caught = None, built = Some s, written = Some w\<rparr>))))"

subsection \<open>The validator's checks as the specification lists them\<close>



text \<open>
  Whether the validator comes to a path that \<open>stat\<close> refuses: the input location
  itself, or an entry of the input directory once checks 1 to 3 have passed.
\<close>

definition stat_refused :: "processor \<Rightarrow> bool" where
  "stat_refused p =
     (case input_node p of
        None \<Rightarrow> False
      | Some (Dir r x es) \<Rightarrow> r \<and> \<not> list_all (statable x) es
      | Some Denied \<Rightarrow> True
      | Some nd \<Rightarrow> False)"


text \<open>
  A direct child as seen without looking into it: a subdirectory keeps its name and
  its permissions and loses its entries.
\<close>

fun shallow :: "path \<Rightarrow> path" where
  "shallow (n, Dir r x es) = (n, Dir r x [])"
| "shallow (n, File r s m c) = (n, File r s m c)"
| "shallow (n, Other) = (n, Other)"
| "shallow (n, Denied) = (n, Denied)"

text \<open>
  The line of the message of check 4 that lists the subfolders found: their number,
  the names of the first five, and the element that counts the others when there are
  more than five.
\<close>

definition folder_listing :: "path list \<Rightarrow> string" where
  "folder_listing folders =
     ''Found '' @ str_nat (length folders) @ '' subfolder(s): ''
     @ join '', '' (map fst (take 5 folders))
     @ (if 5 < length folders
        then '', ... and '' @ str_nat (length folders - 5) @ '' more''
        else [])"

subsection \<open>What the loop records for one file\<close>

text \<open>
  The record that one pass of the loop appends for a file, and the number that a
  line count adds to \<open>total_lines\<close>: nothing when there is none.
\<close>

definition file_record :: "path \<Rightarrow> file_info" where
  "file_record f =
     \<lparr>name = fst f, size_bytes = st_size (snd f),
      file_type = (if count_lines f \<noteq> None then ''text'' else ''binary''),
      line_count = count_lines f, modified = st_mtime (snd f)\<rparr>"

definition lines_of :: "nat option \<Rightarrow> nat" where
  "lines_of lc = (case lc of Some k \<Rightarrow> k | None \<Rightarrow> 0)"

subsection \<open>Example runs\<close>

text \<open>A processor on \<open>/data/input\<close> whose logging and summary writing succeed.\<close>

definition at_input :: "node option \<Rightarrow> processor" where
  "at_input nd =
     \<lparr>input_folder = ''/data/input'', input_node = nd, output_folder = ''/data/output'',
      logging_fails = False, write_failure = None, now = ''2025-01-01 00:00:00''\<rparr>"

text \<open>An input folder that holds six empty subfolders and no file.\<close>

definition six_subfolders :: processor where
  "six_subfolders =
     at_input (Some (Dir True True
       [(''d1'', Dir True True []), (''d2'', Dir True True []), (''d3'', Dir True True []),
        (''d4'', Dir True True []), (''d5'', Dir True True []), (''d6'', Dir True True [])]))"

definition six_subfolders_message :: string where
  "six_subfolders_message =
     ''Input folder must contain at least 1 file(s).'' @ [CHR 0x0A]
     @ ''Found: 0 file(s)'' @ [CHR 0x0A]
     @ ''Found 6 subfolder(s): d1, d2, d3, d4, d5, ... and 1 more'' @ [CHR 0x0A, CHR 0x0A]
     @ ''Note: The system only processes files in the root input folder.'' @ [CHR 0x0A]
     @ ''Files inside subfolders are NOT processed.'' @ [CHR 0x0A, CHR 0x0A]
     @ ''Suggestion: Move files from subfolders to the input folder root,'' @ [CHR 0x0A]
     @ ''or run the script directly on the subfolder: python process.py -i ''
     @ [CHR 0x22] @ ''/data/input/d1'' @ [CHR 0x22]"

text \<open>An empty input folder that the process may not read.\<close>

definition unreadable_empty :: processor where
  "unreadable_empty = at_input (Some (Dir False True []))"

text \<open>
  An input folder with no file of its own and one subfolder that holds a file.
\<close>

definition only_nested_files :: processor where
  "only_nested_files =
     at_input (Some (Dir True True
       [(''sub'', Dir True True
                   [(''deep.txt'', File True 2 ''2025-01-01 00:00:00'' (Some [0x68, 0x0A]))])]))"

text \<open>
  The scenario of the specification: \<open>a.txt\<close> holds \<open>line1\nline2\n\<close> in UTF-8 and
  \<open>b.bin\<close> holds three bytes that neither UTF-8 nor Windows-1252 decodes. The
  directory lists \<open>b.bin\<close> first.
\<close>

definition a_txt :: path where
  "a_txt =
     (''a.txt'', File True 12 ''2025-01-01 00:00:00''
        (Some [0x6C, 0x69, 0x6E, 0x65, 0x31, 0x0A, 0x6C, 0x69, 0x6E, 0x65, 0x32, 0x0A]))"

definition b_bin :: path where
  "b_bin = (''b.bin'', File True 3 ''2025-01-01 00:00:00'' (Some [0xFF, 0x81, 0x00]))"

definition two_files :: processor where
  "two_files = at_input (Some (Dir True True [b_bin, a_txt]))"

definition two_files_summary :: summary where
  "two_files_summary =
     \<lparr>processing_info =
        \<lparr>timestamp = ''2025-01-01 00:00:00'', info_input_folder = ''/data/input'',
         info_output_folder = ''/data/output''\<rparr>,
      statistics =
        \<lparr>total_files = 2, text_files = 2, binary_files = 0, total_size_bytes = 15,
         total_lines = 3\<rparr>,
      files =
        [\<lparr>name = ''a.txt'', size_bytes = 12, file_type = ''text'', line_count = Some 2,
          modified = ''2025-01-01 00:00:00''\<rparr>,
         \<lparr>name = ''b.bin'', size_bytes = 3, file_type = ''text'', line_count = Some 1,
          modified = ''2025-01-01 00:00:00''\<rparr>]\<rparr>"

text \<open>A folder whose only file can be opened by nobody: reading it raises.\<close>

definition locked_dat :: path where
  "locked_dat = (''locked.dat'', File True 5 ''2025-01-01 00:00:00'' None)"

definition io_error_file :: processor where
  "io_error_file = at_input (Some (Dir True True [locked_dat]))"

text \<open>
  One subfolder seen twice: empty, and holding a file that cannot be read.
\<close>

definition sub_empty :: path where
  "sub_empty = (''sub'', Dir True True [])"

definition sub_filled :: path where
  "sub_filled =
     (''sub'', Dir True True [(''deep.txt'', File False 2 ''2025-01-01 00:00:00'' None)])"

text \<open>
  Input folders that the process may list and may not search: one holds a file, one
  holds a subfolder and no file. And an empty input folder in a run whose logging
  cannot be set up.
\<close>

definition unsearchable_one_file :: processor where
  "unsearchable_one_file = at_input (Some (Dir True False [a_txt]))"

definition unsearchable_subfolder :: processor where
  "unsearchable_subfolder = at_input (Some (Dir True False [sub_empty]))"

definition empty_without_logging :: processor where
  "empty_without_logging = (at_input (Some (Dir True True [])))\<lparr>logging_fails := True\<rparr>"

section \<open>Examining the entries of a directory\<close>

lemma comprehension_is_file:
  "comprehension (item_is_file x) es =
     (if list_all (statable x) es then Inr (filter is_file es) else Inl OSError)"
  by (induction es) (simp_all add: item_is_file_def)

lemma comprehension_is_dir:
  "comprehension (item_is_dir x) es =
     (if list_all (statable x) es then Inr (filter is_dir es) else Inl OSError)"
  by (induction es) (simp_all add: item_is_dir_def)

section \<open>The classifier\<close>

lemma try_encodings_OSError:
  "read_bytes f = None \<Longrightarrow> encs \<noteq> [] \<Longrightarrow> try_encodings encs f = Inl OSError"
  by (cases encs) (simp_all add: open_and_count_def)

lemma try_encodings_first:
  "read_bytes f = Some bs \<Longrightarrow>
   try_encodings encs f =
     Inr (case find (\<lambda>enc. decode enc bs \<noteq> None) encs of
            None \<Rightarrow> None
          | Some enc \<Rightarrow> map_option sum_lines (decode enc bs))"
  by (induction encs) (auto simp: open_and_count_def split: option.splits)

lemma try_encodings_latin1:
  "read_bytes f = Some bs \<Longrightarrow>
   try_encodings (UTF8 # Latin1 # encs) f =
     Inr (Some (case decode_utf8 bs of
                  Some t \<Rightarrow> sum_lines t
                | None \<Rightarrow> sum_lines (map unat bs)))"
  by (simp add: open_and_count_def decode_latin1_def split: option.splits)

lemma process_one_last:
  "last (v_file_stats (process_one idx n f v)) =
     \<lparr>name = fst f, size_bytes = st_size (snd f),
      file_type = (if count_lines f \<noteq> None then ''text'' else ''binary''),
      line_count = count_lines f, modified = st_mtime (snd f)\<rparr>"
  by (simp add: process_one_def Let_def)

text \<open>
  Claim C2. The classifier tries UTF-8, then Latin-1, then Windows-1252, in this
  order; the first encoding under which the bytes decode is adopted and the count of
  the lines of that decoding is returned; when no encoding decodes, or when reading
  the file raises another error, the result is \<open>None\<close>, which the aggregator records
  as type \<open>binary\<close> with no line count. The result is a value in every case: no
  exception leaves \<open>count_lines\<close>, and \<open>process_files\<close> returns its summary for
  every readable directory whose entries can be examined, whatever its files hold.
\<close>

theorem count_lines_fallback_chain:
  "count_lines f =
     (case read_bytes f of
        None \<Rightarrow> None
      | Some bs \<Rightarrow>
          (case find (\<lambda>enc. decode enc bs \<noteq> None) [UTF8, Latin1, CP1252] of
             None \<Rightarrow> None
           | Some enc \<Rightarrow> map_option sum_lines (decode enc bs)))
   \<and> line_count (last (v_file_stats (process_one idx n f v))) = count_lines f
   \<and> file_type (last (v_file_stats (process_one idx n f v)))
       = (if count_lines f = None then ''binary'' else ''text'')
   \<and> (input_node p = Some (Dir True x es) \<and> list_all (statable x) es \<longrightarrow>
        (\<exists>s lg. process_files p = Inr (s, lg)))"
proof -
  have "count_lines f =
     (case read_bytes f of
        None \<Rightarrow> None
      | Some bs \<Rightarrow>
          (case find (\<lambda>enc. decode enc bs \<noteq> None) [UTF8, Latin1, CP1252] of
             None \<Rightarrow> None
           | Some enc \<Rightarrow> map_option sum_lines (decode enc bs)))"
  proof (cases "read_bytes f")
    case None
    then show ?thesis
      by (simp add: count_lines_def encodings_def try_encodings_OSError
               del: try_encodings.simps)
  next
    case (Some bs)
    then show ?thesis
      unfolding count_lines_def encodings_def
      by (simp only: try_encodings_first [OF Some] sum.case option.case)
  qed
  moreover have "\<exists>s lg. process_files p = Inr (s, lg)"
    if "input_node p = Some (Dir True x es)" and "list_all (statable x) es"
    using that by (simp add: process_files_def comprehension_is_file Let_def)
  ultimately show ?thesis
    by (simp add: process_one_last)
qed

theorem count_lines_fallback_chain_witness:
  "count_lines a_txt = Some 2
   \<and> count_lines locked_dat = None
   \<and> input_node io_error_file = Some (Dir True True [locked_dat])
   \<and> list_all (statable True) [locked_dat]
   \<and> (\<exists>s lg. process_files io_error_file = Inr (s, lg))"
  using count_lines_fallback_chain [of a_txt _ _ _ io_error_file True "[locked_dat]"]
    count_lines_fallback_chain [of locked_dat _ _ _ io_error_file True "[locked_dat]"]
  by (simp add: io_error_file_def at_input_def statable_def)
     (simp add: a_txt_def locked_dat_def decode_utf8.simps sum_lines_def)

text \<open>
  Claim C10. Latin-1 decodes every byte sequence, so a file whose bytes can be read
  always gets a line count and the type \<open>text\<close>: the result is \<open>None\<close> only when
  reading raises. Whatever follows Latin-1 in the list of encodings is never tried
  (the loop gives the same result with any list after it), and the \<open>return None\<close>
  after the loop is never reached.
\<close>

theorem latin1_makes_every_readable_file_text:
  "(count_lines f = None \<longleftrightarrow> read_bytes f = None)
   \<and> (\<forall>encs. try_encodings (UTF8 # Latin1 # encs) f = try_encodings [UTF8, Latin1] f)
   \<and> try_encodings encodings f \<noteq> Inr None
   \<and> file_type (last (v_file_stats (process_one idx n f v)))
       = (if read_bytes f = None then ''binary'' else ''text'')"
proof (cases "read_bytes f")
  case None
  then show ?thesis
    by (simp add: count_lines_def encodings_def try_encodings_OSError process_one_last
             del: try_encodings.simps)
next
  case (Some bs)
  have cl: "count_lines f \<noteq> None"
    unfolding count_lines_def encodings_def try_encodings_latin1 [OF Some] by simp
  have te: "try_encodings encodings f \<noteq> Inr None"
    unfolding encodings_def try_encodings_latin1 [OF Some] by simp
  have ind: "\<forall>encs. try_encodings (UTF8 # Latin1 # encs) f = try_encodings [UTF8, Latin1] f"
    unfolding try_encodings_latin1 [OF Some] by simp
  have ft: "file_type (last (v_file_stats (process_one idx n f v))) = ''text''"
    using cl by (simp add: process_one_last)
  show ?thesis using cl te ind ft Some by simp
qed


section \<open>The validator\<close>

lemma str_nat_Suc_0: "str_nat (Suc 0) = ''1''"
  by (simp add: str_nat.simps digit_char_def)

lemma str_nat_0: "str_nat 0 = ''0''"
  by (simp add: str_nat.simps digit_char_def)


lemma validate_inputs_Dir:
  "input_node p = Some (Dir True x es) \<Longrightarrow> list_all (statable x) es \<Longrightarrow>
   validate_inputs p =
     (if filter is_file es = [] then
        Inl (ValidationError
               (join [CHR 0x0A] (error_parts (input_folder p) es [] (filter is_dir es))))
      else if filter (\<lambda>f. \<not> access_R_OK f) (filter is_file es) \<noteq> [] then
        Inl (ValidationError
               (''Cannot read files: ''
                @ join '', '' (map fst (filter (\<lambda>f. \<not> access_R_OK f) (filter is_file es)))))
      else Inr ())"
  by (simp add: validate_inputs_def comprehension_is_file comprehension_is_dir
        MIN_FILES_REQUIRED_def Let_def)

lemma validate_inputs_refused:
  "stat_refused p \<Longrightarrow> validate_inputs p = Inl OSError"
  unfolding stat_refused_def validate_inputs_def
  by (auto simp: comprehension_is_file split: option.splits node.splits)

lemma error_parts_prefix:
  "\<exists>rest. join [CHR 0x0A] (error_parts root es [] folders)
     = ''Input folder must contain at least 1 file(s).'' @ CHR 0x0A # ''Found: 0 file(s)'' @ rest"
  by (simp add: error_parts_def MIN_FILES_REQUIRED_def str_nat_Suc_0 str_nat_0 Let_def)



lemma join_snoc: "xs \<noteq> [] \<Longrightarrow> join sep (xs @ [y]) = join sep xs @ sep @ y"
  by (induction sep xs rule: join.induct) auto

lemma error_parts_folders:
  assumes "folders \<noteq> []"
  shows "join [CHR 0x0A] (error_parts root es [] folders) =
     (''Input folder must contain at least 1 file(s).'' @ [CHR 0x0A] @ ''Found: 0 file(s)''
        @ [CHR 0x0A])
     @ (folder_listing folders @ [CHR 0x0A])
     @ (CHR 0x0A # ''Note: The system only processes files in the root input folder.''
        @ [CHR 0x0A])
     @ ''Files inside subfolders are NOT processed.''
     @ ([CHR 0x0A, CHR 0x0A]
        @ ''Suggestion: Move files from subfolders to the input folder root,'' @ [CHR 0x0A]
        @ ''or run the script directly on the subfolder: python process.py -i ''
        @ [CHR 0x22] @ joinpath root (fst (hd folders)) @ [CHR 0x22])"
proof -
  have ne: "map fst (take 5 folders) \<noteq> []"
    using assms by (cases folders) simp_all
  show ?thesis
    using assms
    by (simp add: error_parts_def MIN_FILES_REQUIRED_def str_nat_Suc_0 str_nat_0 Let_def
          folder_listing_def join_snoc [OF ne])
qed

lemma check4_message:
  assumes "input_node p = Some (Dir True x es)" and "list_all (statable x) es"
    and "filter is_file es = []"
  shows "\<exists>m. validate_inputs p = Inl (ValidationError m)
     \<and> sublist ''Found: 0 file(s)'' m
     \<and> (filter is_dir es \<noteq> [] \<longrightarrow>
          sublist (folder_listing (filter is_dir es) @ [CHR 0x0A]) m
          \<and> sublist ''Files inside subfolders are NOT processed.'' m)"
proof -
  let ?m = "join [CHR 0x0A] (error_parts (input_folder p) es [] (filter is_dir es))"
  have v: "validate_inputs p = Inl (ValidationError ?m)"
    using assms(3) by (simp add: validate_inputs_Dir [OF assms(1,2)])
  obtain rest where
    "?m = ''Input folder must contain at least 1 file(s).'' @ CHR 0x0A # ''Found: 0 file(s)'' @ rest"
    using error_parts_prefix by blast
  then have "?m = (''Input folder must contain at least 1 file(s).'' @ [CHR 0x0A])
                  @ ''Found: 0 file(s)'' @ rest"
    by simp
  then have found: "sublist ''Found: 0 file(s)'' ?m"
    by (metis sublist_appendI)
  have "sublist (folder_listing (filter is_dir es) @ [CHR 0x0A]) ?m
        \<and> sublist ''Files inside subfolders are NOT processed.'' ?m"
    if ne: "filter is_dir es \<noteq> []"
  proof
    show "sublist (folder_listing (filter is_dir es) @ [CHR 0x0A]) ?m"
      unfolding error_parts_folders [OF ne] by (rule sublist_appendI)
    have "?m =
        ((''Input folder must contain at least 1 file(s).'' @ [CHR 0x0A] @ ''Found: 0 file(s)''
           @ [CHR 0x0A])
         @ (folder_listing (filter is_dir es) @ [CHR 0x0A])
         @ (CHR 0x0A # ''Note: The system only processes files in the root input folder.''
            @ [CHR 0x0A]))
        @ ''Files inside subfolders are NOT processed.''
        @ ([CHR 0x0A, CHR 0x0A]
           @ ''Suggestion: Move files from subfolders to the input folder root,'' @ [CHR 0x0A]
           @ ''or run the script directly on the subfolder: python process.py -i ''
           @ [CHR 0x22] @ joinpath (input_folder p) (fst (hd (filter is_dir es))) @ [CHR 0x22])"
      unfolding error_parts_folders [OF ne] by (simp only: append_assoc)
    then show "sublist ''Files inside subfolders are NOT processed.'' ?m"
      by (metis sublist_appendI)
  qed
  with v found show ?thesis by blast
qed

lemma run_validation_failure:
  "\<not> logging_fails p \<Longrightarrow> validate_inputs p = Inl e \<Longrightarrow>
   run p = \<lparr>exit_code = handler e, caught = Some e, built = None, written = None\<rparr>"
  by (simp add: run_def setup_logging_def)

lemma validate_six_subfolders:
  "validate_inputs six_subfolders = Inl (ValidationError six_subfolders_message)"
proof -
  have n: "input_node six_subfolders
     = Some (Dir True True
         [(''d1'', Dir True True []), (''d2'', Dir True True []), (''d3'', Dir True True []),
          (''d4'', Dir True True []), (''d5'', Dir True True []), (''d6'', Dir True True [])])"
    by (simp add: six_subfolders_def at_input_def)
  have st: "list_all (statable True)
         [(''d1'', Dir True True []), (''d2'', Dir True True []), (''d3'', Dir True True []),
          (''d4'', Dir True True []), (''d5'', Dir True True []), (''d6'', Dir True True [])]"
    by (simp add: statable_def)
  show ?thesis
    unfolding validate_inputs_Dir [OF n st]
    by (simp add: six_subfolders_def at_input_def six_subfolders_message_def
          MIN_FILES_REQUIRED_def error_parts_def Let_def str_nat.simps digit_char_def
          joinpath_def)
qed

lemma validate_unsearchable_one_file:
  "validate_inputs unsearchable_one_file = Inl OSError"
  by (rule validate_inputs_refused)
     (simp add: stat_refused_def unsearchable_one_file_def at_input_def statable_def)

lemma validate_unsearchable_subfolder:
  "validate_inputs unsearchable_subfolder = Inl OSError"
  by (rule validate_inputs_refused)
     (simp add: stat_refused_def unsearchable_subfolder_def at_input_def statable_def)

lemma validate_unreadable_empty:
  "validate_inputs unreadable_empty
     = Inl (ValidationError ''Cannot read folder: /data/input'')"
  by (simp add: validate_inputs_def unreadable_empty_def at_input_def)




text \<open>
  Claim C9, as the specification states it, has the message of check 4 append a
  suffix \<open>+N more\<close> when more than five subfolders exist. For six subfolders the
  message reads \<open>... and 1 more\<close> after the fifth name and has no \<open>+1 more\<close>
  anywhere.
\<close>

theorem check4_message_counterexample:
  "validate_inputs six_subfolders = Inl (ValidationError six_subfolders_message)
   \<and> \<not> sublist ''+1 more'' six_subfolders_message"
proof
  show "validate_inputs six_subfolders = Inl (ValidationError six_subfolders_message)"
    by (rule validate_six_subfolders)
  have "CHR ''+'' \<notin> set six_subfolders_message"
    by (simp add: six_subfolders_message_def)
  then show "\<not> sublist ''+1 more'' six_subfolders_message"
    using set_mono_sublist [of "''+1 more''" six_subfolders_message] by auto
qed

text \<open>
  Claim C9, amended. Whenever check 4 fails, the message of the \<open>ValidationError\<close>
  reports the count of files found, which is zero. If subfolders exist, one line of
  the message gives their number and the names of the first five at most, separated
  by commas, followed, when there are more than five, by the element
  \<open>... and N more\<close> where \<open>N\<close> counts the others; and the message says that files
  inside subfolders are not processed. Check 4 is reached in a readable directory
  whose entries have been examined.
\<close>

theorem check4_message_reports_count_and_subfolders:
  assumes "input_node p = Some (Dir True x es)" and "list_all (statable x) es"
    and "filter is_file es = []"
  shows "\<exists>m. validate_inputs p = Inl (ValidationError m)
     \<and> sublist (''Found: '' @ str_nat (length (filter is_file es)) @ '' file(s)'') m
     \<and> (filter is_dir es \<noteq> [] \<longrightarrow>
          sublist (folder_listing (filter is_dir es) @ [CHR 0x0A]) m
          \<and> sublist ''Files inside subfolders are NOT processed.'' m)"
  using check4_message [OF assms] assms(3) by (simp add: str_nat_0)

theorem check4_message_reports_count_and_subfolders_witness:
  "input_node six_subfolders
     = Some (Dir True True
         [(''d1'', Dir True True []), (''d2'', Dir True True []), (''d3'', Dir True True []),
          (''d4'', Dir True True []), (''d5'', Dir True True []), (''d6'', Dir True True [])])
   \<and> (\<exists>m. validate_inputs six_subfolders = Inl (ValidationError m)
        \<and> sublist ''Found: 0 file(s)'' m
        \<and> sublist (''Found 6 subfolder(s): d1, d2, d3, d4, d5, ... and 1 more'' @ [CHR 0x0A]) m
        \<and> sublist ''Files inside subfolders are NOT processed.'' m)"
  using check4_message_reports_count_and_subfolders
    [of six_subfolders True
        "[(''d1'', Dir True True []), (''d2'', Dir True True []), (''d3'', Dir True True []),
          (''d4'', Dir True True []), (''d5'', Dir True True []), (''d6'', Dir True True [])]"]
  by (simp add: six_subfolders_def at_input_def folder_listing_def str_nat.simps digit_char_def
        statable_def)

text \<open>
  Claim C6, as the specification states it, holds for every input directory without
  a direct-child regular file. Three such directories end otherwise. An empty
  directory that the process may not read fails check 3 first: the message is about
  the folder that cannot be read and has no count of files in it. A directory that
  the process may list and may not search, holding one subfolder, raises
  \<open>PermissionError\<close> when its entry is examined: the run ends with status 2 and no
  \<open>ValidationError\<close>. And when logging cannot be set up the run ends with status 2
  before the validator is called.
\<close>

theorem no_files_counterexample:
  "caught (run unreadable_empty) = Some (ValidationError ''Cannot read folder: /data/input'')
   \<and> CHR ''0'' \<notin> set ''Cannot read folder: /data/input''
   \<and> caught (run unsearchable_subfolder) = Some OSError
   \<and> exit_code (run unsearchable_subfolder) = 2
   \<and> caught (run empty_without_logging) = Some OSError
   \<and> exit_code (run empty_without_logging) = 2"
proof -
  have "\<not> logging_fails unreadable_empty" "\<not> logging_fails unsearchable_subfolder"
    by (simp_all add: unreadable_empty_def unsearchable_subfolder_def at_input_def)
  then have "run unreadable_empty =
      \<lparr>exit_code = 1, caught = Some (ValidationError ''Cannot read folder: /data/input''),
       built = None, written = None\<rparr>"
    and "run unsearchable_subfolder =
      \<lparr>exit_code = 2, caught = Some OSError, built = None, written = None\<rparr>"
    by (simp_all add: run_validation_failure validate_unreadable_empty
          validate_unsearchable_subfolder)
  moreover have "run empty_without_logging =
      \<lparr>exit_code = 2, caught = Some OSError, built = None, written = None\<rparr>"
    by (simp add: run_def setup_logging_def empty_without_logging_def at_input_def)
  ultimately show ?thesis
    by simp
qed

text \<open>
  Claim C6, amended. For every readable input directory without a direct-child
  regular file, whose entries can all be examined (\<open>stat\<close> is refused on none),
  whatever its subfolders hold, a run that has set up its logging ends with status 1
  on a \<open>ValidationError\<close> whose message reports that 0 files were found;
  \<open>process_files\<close> has not run, so no file record exists, and no summary is written.
\<close>

theorem no_files_aborts_before_processing:
  assumes "input_node p = Some (Dir True x es)" and "list_all (statable x) es"
    and "filter is_file es = []" and "\<not> logging_fails p"
  shows "exit_code (run p) = 1
     \<and> (\<exists>m. caught (run p) = Some (ValidationError m) \<and> sublist ''Found: 0 file(s)'' m)
     \<and> built (run p) = None \<and> written (run p) = None"
proof -
  obtain m where m: "validate_inputs p = Inl (ValidationError m)"
    and s: "sublist ''Found: 0 file(s)'' m"
    using check4_message [OF assms(1,2,3)] by blast
  show ?thesis
    using s by (simp add: run_validation_failure [OF assms(4) m])
qed

theorem no_files_aborts_before_processing_witness:
  "list_all (statable True)
     [(''sub'', Dir True True
                 [(''deep.txt'', File True 2 ''2025-01-01 00:00:00'' (Some [0x68, 0x0A]))])]
   \<and> exit_code (run only_nested_files) = 1
   \<and> (\<exists>m. caught (run only_nested_files) = Some (ValidationError m)
        \<and> sublist ''Found: 0 file(s)'' m)
   \<and> built (run only_nested_files) = None \<and> written (run only_nested_files) = None"
  using no_files_aborts_before_processing
    [of only_nested_files True
        "[(''sub'', Dir True True
                     [(''deep.txt'', File True 2 ''2025-01-01 00:00:00'' (Some [0x68, 0x0A]))])]"]
  by (simp add: only_nested_files_def at_input_def statable_def)

section \<open>The aggregator and the run\<close>

lemma process_one_fields:
  "v_file_stats (process_one idx n f v) = v_file_stats v @ [file_record f]"
  "v_total_size (process_one idx n f v) = v_total_size v + st_size (snd f)"
  "v_total_lines (process_one idx n f v) = v_total_lines v + lines_of (count_lines f)"
  "v_text_files (process_one idx n f v)
     = v_text_files v + (if count_lines f \<noteq> None then 1 else 0)"
  "v_binary_files (process_one idx n f v)
     = v_binary_files v + (if count_lines f = None then 1 else 0)"
  "v_progress (process_one idx n f v) = v_progress v @ [progress_line idx n (fst f)]"
  by (simp_all add: process_one_def file_record_def lines_of_def Let_def split: option.splits)

lemma process_loop_file_stats:
  "v_file_stats (process_loop idx n fs v) = v_file_stats v @ map file_record fs"
  by (induction fs arbitrary: idx v) (simp_all add: process_one_fields)

lemma process_loop_total_size:
  "v_total_size (process_loop idx n fs v) = v_total_size v + (\<Sum>f\<leftarrow>fs. st_size (snd f))"
  by (induction fs arbitrary: idx v) (simp_all add: process_one_fields)

lemma process_loop_total_lines:
  "v_total_lines (process_loop idx n fs v)
     = v_total_lines v + (\<Sum>f\<leftarrow>fs. lines_of (count_lines f))"
  by (induction fs arbitrary: idx v) (simp_all add: process_one_fields)

lemma process_loop_text_files:
  "v_text_files (process_loop idx n fs v)
     = v_text_files v + length (filter (\<lambda>f. count_lines f \<noteq> None) fs)"
  by (induction fs arbitrary: idx v) (simp_all add: process_one_fields)

lemma process_loop_binary_files:
  "v_binary_files (process_loop idx n fs v)
     = v_binary_files v + length (filter (\<lambda>f. count_lines f = None) fs)"
  by (induction fs arbitrary: idx v) (simp_all add: process_one_fields)

lemma process_loop_progress:
  "v_progress (process_loop idx n fs v)
     = v_progress v
       @ map (\<lambda>(i, f). progress_line i n (fst f)) (zip [idx..<idx + length fs] fs)"
proof (induction fs arbitrary: idx v)
  case Nil
  then show ?case by simp
next
  case (Cons f fs)
  have "[idx..<idx + length (f # fs)] = idx # [Suc idx..<Suc idx + length fs]"
    by (simp add: upt_rec)
  then show ?case
    by (simp add: Cons.IH process_one_fields)
qed

lemma length_filter_split:
  "length (filter P xs) + length (filter (\<lambda>x. \<not> P x) xs) = length xs"
  by (induction xs) simp_all

lemma sum_text_lines:
  "(\<Sum>r\<leftarrow>filter (\<lambda>r. file_type r = ''text'') (map file_record fs). lines_of (line_count r))
     = (\<Sum>f\<leftarrow>fs. lines_of (count_lines f))"
  by (induction fs) (simp_all add: file_record_def lines_of_def)

lemma map_insort_key: "map f (insort_key f x xs) = insort (f x) (map f xs)"
  by (induction xs) simp_all

lemma map_sort_key: "map f (sort_key f xs) = sort (map f xs)"
  by (induction xs) (simp_all add: map_insort_key)

lemma process_files_Dir:
  "input_node p = Some (Dir True x es) \<Longrightarrow> list_all (statable x) es \<Longrightarrow>
   process_files p =
     (let fs = sort_key fst (filter is_file es);
          v = process_loop 1 (length fs) fs initial_vars
      in Inr (\<lparr>processing_info =
                  \<lparr>timestamp = now p, info_input_folder = input_folder p,
                   info_output_folder = output_folder p\<rparr>,
                statistics =
                  \<lparr>total_files = length fs, text_files = v_text_files v,
                   binary_files = v_binary_files v, total_size_bytes = v_total_size v,
                   total_lines = v_total_lines v\<rparr>,
                files = v_file_stats v\<rparr>,
              v_progress v))"
  unfolding process_files_def by (simp add: comprehension_is_file)

lemma iterdir_Inr: "iterdir nd = Inr es \<Longrightarrow> \<exists>x. nd = Dir True x es"
  by (cases nd) (auto split: if_splits)

lemma process_files_Inr:
  assumes "process_files p = Inr (s, lg)"
  shows "\<exists>x es. input_node p = Some (Dir True x es) \<and> list_all (statable x) es"
proof -
  from assms obtain nd where nd: "input_node p = Some nd"
    by (cases "input_node p") (simp_all add: process_files_def)
  with assms obtain es where es: "iterdir nd = Inr es"
    by (cases "iterdir nd") (simp_all add: process_files_def)
  then obtain x where x: "nd = Dir True x es"
    using iterdir_Inr by blast
  have "list_all (statable x) es"
  proof (rule ccontr)
    assume "\<not> list_all (statable x) es"
    with assms nd x show False
      by (simp add: process_files_def comprehension_is_file)
  qed
  with nd x show ?thesis by blast
qed

lemma process_files_totals:
  assumes "process_files p = Inr (s, lg)"
  shows "total_files (statistics s) = text_files (statistics s) + binary_files (statistics s)
     \<and> total_files (statistics s) = length (files s)
     \<and> total_size_bytes (statistics s) = (\<Sum>r\<leftarrow>files s. size_bytes r)
     \<and> total_lines (statistics s)
         = (\<Sum>r\<leftarrow>filter (\<lambda>r. file_type r = ''text'') (files s). lines_of (line_count r))"
proof -
  obtain x es where es: "input_node p = Some (Dir True x es)"
    and st: "list_all (statable x) es"
    using process_files_Inr [OF assms] by blast
  define fs where "fs = sort_key fst (filter is_file es)"
  define v where "v = process_loop 1 (length fs) fs initial_vars"
  have s: "statistics s =
             \<lparr>total_files = length fs, text_files = v_text_files v,
              binary_files = v_binary_files v, total_size_bytes = v_total_size v,
              total_lines = v_total_lines v\<rparr>"
    and f: "files s = v_file_stats v"
    using assms unfolding process_files_Dir [OF es st] Let_def fs_def v_def by auto
  have fl: "files s = map file_record fs"
    by (simp add: f v_def process_loop_file_stats initial_vars_def)
  have "length (filter (\<lambda>f. count_lines f \<noteq> None) fs)
          + length (filter (\<lambda>f. \<not> count_lines f \<noteq> None) fs) = length fs"
    by (rule length_filter_split)
  then have a: "total_files (statistics s)
                  = text_files (statistics s) + binary_files (statistics s)"
    by (simp add: s v_def process_loop_text_files process_loop_binary_files initial_vars_def)
  have b: "total_files (statistics s) = length (files s)"
    by (simp add: s fl)
  have c: "total_size_bytes (statistics s) = (\<Sum>r\<leftarrow>files s. size_bytes r)"
    by (simp add: s fl v_def process_loop_total_size initial_vars_def file_record_def comp_def)
  have d: "total_lines (statistics s)
         = (\<Sum>r\<leftarrow>filter (\<lambda>r. file_type r = ''text'') (files s). lines_of (line_count r))"
    by (simp add: s fl v_def process_loop_total_lines initial_vars_def sum_text_lines)
  show ?thesis using a b c d by simp
qed

lemma process_files_order:
  assumes "input_node p = Some (Dir True x es)" and "list_all (statable x) es"
  shows "\<exists>s lg. process_files p = Inr (s, lg)
     \<and> map name (files s) = sort (map fst (filter is_file es))
     \<and> lg = map (\<lambda>(i, nm). progress_line i (length (files s)) nm)
               (zip [1..<Suc (length (files s))] (map name (files s)))"
proof -
  define fs where "fs = sort_key fst (filter is_file es)"
  define v where "v = process_loop 1 (length fs) fs initial_vars"
  have fl: "v_file_stats v = map file_record fs"
    by (simp add: v_def process_loop_file_stats initial_vars_def)
  have nm: "map name (v_file_stats v) = map fst fs"
    by (simp add: fl file_record_def comp_def)
  have pr: "v_progress v
              = map (\<lambda>(i, f). progress_line i (length fs) (fst f)) (zip [1..<Suc (length fs)] fs)"
    by (simp add: v_def process_loop_progress initial_vars_def)
  have "map (\<lambda>(i, f). progress_line i (length fs) (fst f)) (zip [1..<Suc (length fs)] fs)
          = map (\<lambda>(i, nm). progress_line i (length fs) nm)
              (zip [1..<Suc (length fs)] (map fst fs))"
    by (simp add: zip_map2 comp_def case_prod_unfold)
  with pr nm fl show ?thesis
    unfolding process_files_Dir [OF assms] Let_def fs_def [symmetric] v_def [symmetric]
    by (simp add: fs_def map_sort_key)
qed


lemma handler_nonzero: "handler e \<noteq> 0"
  by (cases e) simp_all

lemma handler_one: "handler e = 1 \<longleftrightarrow> (\<exists>m. e = ValidationError m)"
  by (cases e) simp_all

lemma handler_two: "handler e = 2 \<longleftrightarrow> (\<forall>m. e \<noteq> ValidationError m)"
  by (cases e) simp_all

lemma run_success:
  "exit_code (run p) = 0 \<longleftrightarrow>
     \<not> logging_fails p \<and> validate_inputs p = Inr ()
     \<and> (\<exists>s lg. process_files p = Inr (s, lg)) \<and> write_failure p = None"
  by (auto simp: run_def setup_logging_def write_summary_def handler_nonzero
      split: sum.splits option.splits)

lemma validate_ok_Dir:
  assumes "validate_inputs p = Inr ()"
  shows "\<exists>x es. input_node p = Some (Dir True x es) \<and> list_all (statable x) es"
proof -
  have n: "\<not> stat_refused p"
    using validate_inputs_refused [of p] assms by auto
  from assms obtain nd where nd: "input_node p = Some nd"
    by (cases "input_node p") (simp_all add: validate_inputs_def)
  with assms have "is_dir (input_folder p, nd)" and "access_R_OK (input_folder p, nd)"
    by (auto simp: validate_inputs_def split: if_splits)
  then obtain x es where "nd = Dir True x es"
    by (cases nd) simp_all
  with nd n show ?thesis
    by (simp add: stat_refused_def)
qed

lemma shallow_same:
  assumes "map shallow es = map shallow es'"
  shows "filter is_file es = filter is_file es'"
    and "map fst (filter is_dir es) = map fst (filter is_dir es')"
    and "length es = length es'"
    and "list_all (statable x) es = list_all (statable x) es'"
proof -
  have len: "length es = length es'"
    using assms by (metis length_map)
  from len assms show "filter is_file es = filter is_file es'"
  proof (induction es es' rule: list_induct2)
    case Nil
    then show ?case by simp
  next
    case (Cons x xs y ys)
    then show ?case
      by (cases x rule: shallow.cases; cases y rule: shallow.cases) auto
  qed
  from len assms show "map fst (filter is_dir es) = map fst (filter is_dir es')"
  proof (induction es es' rule: list_induct2)
    case Nil
    then show ?case by simp
  next
    case (Cons x xs y ys)
    then show ?case
      by (cases x rule: shallow.cases; cases y rule: shallow.cases) auto
  qed
  show "length es = length es'" by (rule len)
  from len assms show "list_all (statable x) es = list_all (statable x) es'"
  proof (induction es es' rule: list_induct2)
    case Nil
    then show ?case by simp
  next
    case (Cons a xs b ys)
    then show ?case
      by (cases a rule: shallow.cases; cases b rule: shallow.cases) (auto simp: statable_def)
  qed
qed

lemma error_parts_names:
  assumes "map fst folders = map fst folders'" and "length es = length es'"
  shows "error_parts root es fls folders = error_parts root es' fls folders'"
proof -
  have l: "length folders = length folders'"
    using assms(1) by (metis length_map)
  have t: "map fst (take 5 folders) = map fst (take 5 folders')"
    using assms(1) by (simp add: take_map [symmetric])
  have e: "folders = [] \<longleftrightarrow> folders' = []"
    using l by auto
  have h: "folders \<noteq> [] \<Longrightarrow> fst (hd folders) = fst (hd folders')"
    using assms(1) e by (cases folders; cases folders') auto
  show ?thesis
    using l t e h assms(2) by (auto simp: error_parts_def Let_def)
qed


lemma count_lines_a_txt: "count_lines a_txt = Some 2"
  by (simp add: a_txt_def count_lines_def encodings_def open_and_count_def decode_utf8.simps
        sum_lines_def)

lemma decode_b_bin:
  "decode UTF8 [0xFF, 0x81, 0x00] = None \<and> decode CP1252 [0xFF, 0x81, 0x00] = None"
  by (simp add: decode_utf8.simps cp1252_char_def cp1252_table_def)

lemma count_lines_b_bin: "count_lines b_bin = Some 1"
  by (simp add: b_bin_def count_lines_def encodings_def open_and_count_def decode_utf8.simps
        decode_latin1_def sum_lines_def)

lemma sorted_two_files: "sort_key fst (filter is_file [b_bin, a_txt]) = [a_txt, b_bin]"
  by (simp add: a_txt_def b_bin_def)

lemma process_files_two_files:
  "process_files two_files = Inr (two_files_summary, [''  [1/2] a.txt'', ''  [2/2] b.bin''])"
proof -
  have n: "input_node two_files = Some (Dir True True [b_bin, a_txt])"
    by (simp add: two_files_def at_input_def)
  have st: "list_all (statable True) [b_bin, a_txt]"
    by (simp add: statable_def a_txt_def b_bin_def)
  have l: "process_loop 1 2 [a_txt, b_bin] initial_vars =
      \<lparr>v_file_stats = [file_record a_txt, file_record b_bin],
       v_total_size = 15, v_total_lines = 3, v_text_files = 2, v_binary_files = 0,
       v_progress = [''  [1/2] a.txt'', ''  [2/2] b.bin'']\<rparr>"
    by (rule loop_vars.equality)
       (simp_all add: process_one_fields initial_vars_def count_lines_a_txt
          count_lines_b_bin progress_line_def str_nat.simps digit_char_def lines_of_def,
        simp_all add: a_txt_def b_bin_def)
  have len: "length [a_txt, b_bin] = 2"
    by simp
  have "process_files two_files =
      Inr (\<lparr>processing_info =
              \<lparr>timestamp = now two_files, info_input_folder = input_folder two_files,
               info_output_folder = output_folder two_files\<rparr>,
            statistics =
              \<lparr>total_files = 2, text_files = 2, binary_files = 0, total_size_bytes = 15,
               total_lines = 3\<rparr>,
            files = [file_record a_txt, file_record b_bin]\<rparr>,
           [''  [1/2] a.txt'', ''  [2/2] b.bin''])"
    unfolding process_files_Dir [OF n st] sorted_two_files Let_def len l
    by (simp only: loop_vars.simps)
  also have "\<dots> = Inr (two_files_summary, [''  [1/2] a.txt'', ''  [2/2] b.bin''])"
    by (simp add: file_record_def count_lines_a_txt count_lines_b_bin two_files_summary_def
          two_files_def at_input_def)
       (simp add: a_txt_def b_bin_def)
  finally show ?thesis .
qed

lemma validate_Dir_ok:
  assumes "input_node p = Some (Dir True True es)"
    and "list_all (\<lambda>f. snd f \<noteq> Denied) es"
    and "filter is_file es \<noteq> []"
    and "filter (\<lambda>f. \<not> access_R_OK f) (filter is_file es) = []"
  shows "validate_inputs p = Inr ()"
proof -
  have "list_all (statable True) es"
    using assms(2) by (simp add: list_all_iff statable_def)
  from validate_inputs_Dir [OF assms(1) this] assms(3,4) show ?thesis
    by simp
qed

lemma validate_two_files: "validate_inputs two_files = Inr ()"
  by (rule validate_Dir_ok [of _ "[b_bin, a_txt]"])
     (simp_all add: two_files_def at_input_def a_txt_def b_bin_def)

lemma run_two_files:
  "run two_files =
     \<lparr>exit_code = 0, caught = None, built = Some two_files_summary,
      written = Some two_files_summary\<rparr>"
  by (simp add: run_def setup_logging_def validate_two_files process_files_two_files
        write_summary_def)
     (simp add: two_files_def at_input_def)

lemma validate_inputs_shallow:
  assumes "input_node p = Some (Dir r x es)" and "map shallow es = map shallow es'"
  shows "validate_inputs (p\<lparr>input_node := Some (Dir r x es')\<rparr>) = validate_inputs p"
proof (cases r)
  case False
  with assms(1) show ?thesis
    by (simp add: validate_inputs_def)
next
  case True
  have n: "input_node p = Some (Dir True x es)"
    using assms(1) True by simp
  have n': "input_node (p\<lparr>input_node := Some (Dir r x es')\<rparr>) = Some (Dir True x es')"
    using True by simp
  have eq: "list_all (statable x) es = list_all (statable x) es'"
    by (rule shallow_same(4) [OF assms(2)])
  show ?thesis
  proof (cases "list_all (statable x) es")
    case st: True
    with eq have st': "list_all (statable x) es'"
      by simp
    show ?thesis
      unfolding validate_inputs_Dir [OF n st] validate_inputs_Dir [OF n' st']
      using shallow_same(1,2,3) [OF assms(2)]
        error_parts_names [of "filter is_dir es" "filter is_dir es'" es es']
      by simp
  next
    case st: False
    with eq have st': "\<not> list_all (statable x) es'"
      by simp
    have "stat_refused p" and "stat_refused (p\<lparr>input_node := Some (Dir r x es')\<rparr>)"
      using n st st' True by (simp_all add: stat_refused_def)
    then show ?thesis
      by (simp add: validate_inputs_refused)
  qed
qed

lemma process_files_shallow:
  assumes "input_node p = Some (Dir r x es)" and "map shallow es = map shallow es'"
  shows "process_files (p\<lparr>input_node := Some (Dir r x es')\<rparr>) = process_files p"
  using assms(1) shallow_same(1) [OF assms(2)] shallow_same(4) [OF assms(2), of x]
  by (simp add: process_files_def comprehension_is_file)

lemma process_files_Inl: "process_files p = Inl e \<Longrightarrow> e = OSError"
  unfolding process_files_def
  by (cases "input_node p"; cases "the (input_node p)")
     (auto split: if_splits simp: Let_def comprehension_is_file)

lemma run_caught_validation:
  "(\<exists>m. caught (run p) = Some (ValidationError m)) \<longleftrightarrow>
     \<not> logging_fails p \<and> (\<exists>m. validate_inputs p = Inl (ValidationError m))"
  by (auto simp: run_def setup_logging_def write_summary_def
      split: sum.splits option.splits dest: process_files_Inl)

lemma run_unsearchable_one_file:
  "run unsearchable_one_file =
     \<lparr>exit_code = 2, caught = Some OSError, built = None, written = None\<rparr>"
proof -
  have "\<not> logging_fails unsearchable_one_file"
    by (simp add: unsearchable_one_file_def at_input_def)
  then show ?thesis
    by (simp add: run_validation_failure validate_unsearchable_one_file)
qed

lemma run_exit_caught:
  "exit_code (run p) = (case caught (run p) of None \<Rightarrow> 0 | Some e \<Rightarrow> handler e)"
  by (auto simp: run_def setup_logging_def write_summary_def
      split: sum.splits option.splits)

text \<open>
  Claim C4. In the summary of every successful run, \<open>total_files\<close> is the sum of
  \<open>text_files\<close> and \<open>binary_files\<close> (and the number of file records),
  \<open>total_size_bytes\<close> is the sum of \<open>size_bytes\<close> over the file records, and
  \<open>total_lines\<close> is the sum of \<open>line_count\<close> over the records of type \<open>text\<close>.
\<close>

theorem totals_invariant:
  assumes "exit_code (run p) = 0"
  shows "\<exists>s. written (run p) = Some s
     \<and> total_files (statistics s) = text_files (statistics s) + binary_files (statistics s)
     \<and> total_files (statistics s) = length (files s)
     \<and> total_size_bytes (statistics s) = (\<Sum>r\<leftarrow>files s. size_bytes r)
     \<and> total_lines (statistics s)
         = (\<Sum>r\<leftarrow>filter (\<lambda>r. file_type r = ''text'') (files s). lines_of (line_count r))"
proof -
  from assms obtain s lg where pf: "process_files p = Inr (s, lg)"
    and ok: "\<not> logging_fails p" "validate_inputs p = Inr ()" "write_failure p = None"
    by (auto simp: run_success)
  have "written (run p) = Some s"
    using pf ok by (simp add: run_def setup_logging_def write_summary_def)
  with process_files_totals [OF pf] show ?thesis by blast
qed

theorem totals_invariant_witness:
  "exit_code (run two_files) = 0
   \<and> (\<exists>s. written (run two_files) = Some s
        \<and> total_files (statistics s) = text_files (statistics s) + binary_files (statistics s)
        \<and> total_files (statistics s) = length (files s)
        \<and> total_size_bytes (statistics s) = (\<Sum>r\<leftarrow>files s. size_bytes r)
        \<and> total_lines (statistics s)
            = (\<Sum>r\<leftarrow>filter (\<lambda>r. file_type r = ''text'') (files s). lines_of (line_count r)))"
proof -
  have "validate_inputs two_files = Inr ()"
    by (rule validate_two_files)
  then have e: "exit_code (run two_files) = 0"
    by (simp add: run_success process_files_two_files) (simp add: two_files_def at_input_def)
  show ?thesis
    using e totals_invariant [OF e] by simp
qed

text \<open>
  Claim C1. In the scenario of the specification the summary is to count one text
  file and one binary file, two lines in all, and to record \<open>b.bin\<close> as binary with
  no line count. The bytes of \<open>b.bin\<close> here decode neither as UTF-8 nor as
  Windows-1252, yet Latin-1 decodes them: the code records \<open>b.bin\<close> as text with one
  line, and the totals are two text files, no binary file and three lines.
\<close>

theorem undecodable_file_is_recorded_as_text:
  "decode UTF8 [0xFF, 0x81, 0x00] = None
   \<and> decode CP1252 [0xFF, 0x81, 0x00] = None
   \<and> decode Latin1 [0xFF, 0x81, 0x00] = Some [255, 129, 0]
   \<and> exit_code (run two_files) = 0
   \<and> map_option statistics (written (run two_files)) =
        Some \<lparr>total_files = 2, text_files = 2, binary_files = 0, total_size_bytes = 15,
              total_lines = 3\<rparr>
   \<and> map_option files (written (run two_files)) =
        Some [\<lparr>name = ''a.txt'', size_bytes = 12, file_type = ''text'', line_count = Some 2,
               modified = ''2025-01-01 00:00:00''\<rparr>,
              \<lparr>name = ''b.bin'', size_bytes = 3, file_type = ''text'', line_count = Some 1,
               modified = ''2025-01-01 00:00:00''\<rparr>]"
proof -
  have "decode Latin1 [0xFF, 0x81, 0x00] = Some [255, 129, 0]"
    by (simp add: decode_latin1_def)
  moreover have "exit_code (run two_files) = 0"
    by (simp add: run_two_files)
  moreover have "map_option statistics (written (run two_files)) =
        Some \<lparr>total_files = 2, text_files = 2, binary_files = 0, total_size_bytes = 15,
              total_lines = 3\<rparr>"
    by (simp add: run_two_files two_files_summary_def)
  moreover have "map_option files (written (run two_files)) =
        Some [\<lparr>name = ''a.txt'', size_bytes = 12, file_type = ''text'', line_count = Some 2,
               modified = ''2025-01-01 00:00:00''\<rparr>,
              \<lparr>name = ''b.bin'', size_bytes = 3, file_type = ''text'', line_count = Some 1,
               modified = ''2025-01-01 00:00:00''\<rparr>]"
    by (simp add: run_two_files two_files_summary_def)
  ultimately show ?thesis
    using decode_b_bin by blast
qed

text \<open>
  Claim C5. The file records of the summary are in ascending lexicographic order of
  their names: the names are the sorted list of the names of the direct-child regular
  files, and a directory that lists the same entries in another order gives the same
  sequence of names. The files are processed in this order, and the progress line of
  the file at position \<open>i\<close>, counted from 1, carries the index \<open>i\<close>. A summary
  exists for a readable directory whose entries can be examined.
\<close>

theorem files_sorted_by_name:
  assumes "input_node p = Some (Dir True x es)" and "list_all (statable x) es"
  shows "\<exists>s lg. process_files p = Inr (s, lg)
     \<and> sorted (map name (files s))
     \<and> map name (files s) = sort (map fst (filter is_file es))
     \<and> (\<forall>es' s' lg'. mset es' = mset es
            \<and> process_files (p\<lparr>input_node := Some (Dir True x es')\<rparr>) = Inr (s', lg')
          \<longrightarrow> map name (files s') = map name (files s))
     \<and> lg = map (\<lambda>(i, nm). progress_line i (length (files s)) nm)
               (zip [1..<Suc (length (files s))] (map name (files s)))"
proof -
  obtain s lg where a: "process_files p = Inr (s, lg)"
    and b: "map name (files s) = sort (map fst (filter is_file es))"
    and c: "lg = map (\<lambda>(i, nm). progress_line i (length (files s)) nm)
               (zip [1..<Suc (length (files s))] (map name (files s)))"
    using process_files_order [OF assms] by blast
  have d: "sorted (map name (files s))"
    unfolding b by simp
  have e: "map name (files s') = map name (files s)"
    if m: "mset es' = mset es"
      and r: "process_files (p\<lparr>input_node := Some (Dir True x es')\<rparr>) = Inr (s', lg')"
    for es' s' lg'
  proof -
    have n': "input_node (p\<lparr>input_node := Some (Dir True x es')\<rparr>) = Some (Dir True x es')"
      by simp
    have "list_all (statable x) es'"
      using process_files_Inr [OF r] by simp
    from process_files_order [OF n' this] r
    have "map name (files s') = sort (map fst (filter is_file es'))"
      by auto
    also have "\<dots> = sorted_list_of_multiset (mset (map fst (filter is_file es')))"
      by (simp only: sorted_list_of_multiset_mset)
    also have "mset (map fst (filter is_file es')) = mset (map fst (filter is_file es))"
      using m by (simp only: mset_map mset_filter)
    also have "sorted_list_of_multiset (mset (map fst (filter is_file es)))
                 = sort (map fst (filter is_file es))"
      by (simp only: sorted_list_of_multiset_mset)
    finally show ?thesis
      using b by simp
  qed
  from a b c d e show ?thesis by blast
qed

theorem files_sorted_by_name_witness:
  "\<exists>s lg. process_files two_files = Inr (s, lg)
     \<and> map name (files s) = [''a.txt'', ''b.bin'']
     \<and> sorted (map name (files s))
     \<and> lg = [''  [1/2] a.txt'', ''  [2/2] b.bin'']"
  using files_sorted_by_name [of two_files True "[b_bin, a_txt]"]
  by (simp add: process_files_two_files) (simp add: two_files_summary_def)

text \<open>
  Claim C7. Two input directories whose direct children are the same, up to what the
  subfolders hold, have the same validation result, the same result of
  \<open>process_files\<close> (the totals with it) and the same outcome of the run.
\<close>

theorem subfolder_contents_ignored:
  assumes "input_node p = Some (Dir r x es)" and "map shallow es = map shallow es'"
  shows "validate_inputs (p\<lparr>input_node := Some (Dir r x es')\<rparr>) = validate_inputs p
     \<and> process_files (p\<lparr>input_node := Some (Dir r x es')\<rparr>) = process_files p
     \<and> run (p\<lparr>input_node := Some (Dir r x es')\<rparr>) = run p"
  using validate_inputs_shallow [OF assms] process_files_shallow [OF assms]
  by (simp add: run_def setup_logging_def write_summary_def cong: sum.case_cong)

theorem subfolder_contents_ignored_witness:
  "map shallow [a_txt, sub_empty] = map shallow [a_txt, sub_filled]
   \<and> validate_inputs (at_input (Some (Dir True True [a_txt, sub_filled])))
       = validate_inputs (at_input (Some (Dir True True [a_txt, sub_empty])))
   \<and> process_files (at_input (Some (Dir True True [a_txt, sub_filled])))
       = process_files (at_input (Some (Dir True True [a_txt, sub_empty])))
   \<and> run (at_input (Some (Dir True True [a_txt, sub_filled])))
       = run (at_input (Some (Dir True True [a_txt, sub_empty])))
   \<and> validate_inputs (at_input (Some (Dir True True [a_txt, sub_empty]))) = Inr ()"
proof -
  have m: "map shallow [a_txt, sub_empty] = map shallow [a_txt, sub_filled]"
    by (simp add: sub_empty_def sub_filled_def)
  have n: "input_node (at_input (Some (Dir True True [a_txt, sub_empty])))
             = Some (Dir True True [a_txt, sub_empty])"
    by (simp add: at_input_def)
  have u: "(at_input (Some (Dir True True [a_txt, sub_empty])))
             \<lparr>input_node := Some (Dir True True [a_txt, sub_filled])\<rparr>
           = at_input (Some (Dir True True [a_txt, sub_filled]))"
    by (simp add: at_input_def)
  have v: "validate_inputs (at_input (Some (Dir True True [a_txt, sub_empty]))) = Inr ()"
    by (rule validate_Dir_ok [OF n]) (simp_all add: a_txt_def sub_empty_def)
  show ?thesis
    using subfolder_contents_ignored [OF n m] m v unfolding u by simp
qed

text \<open>
  Claim C8. A run ends with exactly one of three exit statuses. It is 0 exactly when
  logging setup, validation, processing and the writing of the summary all succeed;
  1 exactly when a \<open>ValidationError\<close> is caught, which is exactly when
  \<open>validate_inputs\<close> raised it; 2 exactly when any other exception is caught, as when
  the summary cannot be written after a successful validation, or when \<open>stat\<close> is
  refused on an entry of the input directory.
\<close>

theorem run_three_outcomes:
  "(exit_code (run p) = 0 \<or> exit_code (run p) = 1 \<or> exit_code (run p) = 2)
   \<and> (exit_code (run p) = 0 \<longleftrightarrow>
        \<not> logging_fails p \<and> validate_inputs p = Inr ()
        \<and> (\<exists>s lg. process_files p = Inr (s, lg)) \<and> write_failure p = None)
   \<and> (exit_code (run p) = 1 \<longleftrightarrow> (\<exists>m. caught (run p) = Some (ValidationError m)))
   \<and> (exit_code (run p) = 2 \<longleftrightarrow>
        (\<exists>e. caught (run p) = Some e \<and> (\<forall>m. e \<noteq> ValidationError m)))
   \<and> ((\<exists>m. caught (run p) = Some (ValidationError m)) \<longleftrightarrow>
        \<not> logging_fails p \<and> (\<exists>m. validate_inputs p = Inl (ValidationError m)))
   \<and> (\<not> logging_fails p \<and> validate_inputs p = Inr () \<and> write_failure p \<noteq> None \<longrightarrow>
        exit_code (run p) = 2 \<and> written (run p) = None)"
proof -
  have a: "exit_code (run p) = 0 \<or> exit_code (run p) = 1 \<or> exit_code (run p) = 2"
    unfolding run_exit_caught
    by (cases "caught (run p)") (auto simp: handler_one handler_two)
  have c: "exit_code (run p) = 1 \<longleftrightarrow> (\<exists>m. caught (run p) = Some (ValidationError m))"
    unfolding run_exit_caught
    by (cases "caught (run p)") (auto simp: handler_one)
  have d: "exit_code (run p) = 2 \<longleftrightarrow>
        (\<exists>e. caught (run p) = Some e \<and> (\<forall>m. e \<noteq> ValidationError m))"
    unfolding run_exit_caught
    by (cases "caught (run p)") (auto simp: handler_two)
  have f: "exit_code (run p) = 2 \<and> written (run p) = None"
    if lf: "\<not> logging_fails p" and vi: "validate_inputs p = Inr ()"
      and wf: "write_failure p \<noteq> None"
  proof -
    obtain x es where "input_node p = Some (Dir True x es)" "list_all (statable x) es"
      using validate_ok_Dir [OF vi] by blast
    then obtain s lg where "process_files p = Inr (s, lg)"
      using process_files_order by blast
    with lf vi wf show ?thesis
      by (auto simp: run_def setup_logging_def write_summary_def)
  qed
  show ?thesis
    using a c d f run_success [of p] run_caught_validation [of p] by blast
qed

theorem run_three_outcomes_witness:
  "exit_code (run two_files) = 0
   \<and> exit_code (run unreadable_empty) = 1
   \<and> exit_code (run (two_files\<lparr>write_failure := Some ''No space left on device''\<rparr>)) = 2
   \<and> exit_code (run (two_files\<lparr>logging_fails := True\<rparr>)) = 2
   \<and> exit_code (run unsearchable_one_file) = 2"
proof -
  have v: "validate_inputs (two_files\<lparr>write_failure := Some ''No space left on device''\<rparr>)
             = Inr ()"
    by (rule validate_Dir_ok [of _ "[b_bin, a_txt]"])
       (simp_all add: two_files_def at_input_def a_txt_def b_bin_def)
  have "exit_code (run (two_files\<lparr>write_failure := Some ''No space left on device''\<rparr>)) = 2"
    using run_three_outcomes [of "two_files\<lparr>write_failure := Some ''No space left on device''\<rparr>"] v
    by (simp add: two_files_def at_input_def)
  then show ?thesis
    by (simp add: run_two_files run_unsearchable_one_file)
       (simp add: run_def setup_logging_def validate_inputs_def unreadable_empty_def
          at_input_def two_files_def)
qed


end
